theory Spec2Isabelle
  imports Main
begin

section \<open>Bytes, formatting and the outcome of a call\<close>

text \<open>
  A Go \<open>string\<close> and a \<open>[]byte\<close> are sequences of bytes; both are modelled as
  \<^typ>\<open>string\<close> (a list of 8-bit characters), and \<open>len\<close> is \<^const>\<open>length\<close>.
\<close>

definition NUL :: char where
  "NUL = CHR 0x00"

definition NL :: char where
  "NL = CHR 0x0A"

definition SP :: char where
  "SP = CHR 0x20"

text \<open>\<open>successfulByte := []byte{0}\<close> (line 124).\<close>

definition successfulByte :: string where
  "successfulByte = [NUL]"

text \<open>
  \<open>fmt\<close> prints a non-negative \<open>int\<close> in decimal without sign or padding.
  \<open>len(content)\<close> is never negative, so the number is a \<^typ>\<open>nat\<close>.
\<close>

definition digit :: "nat \<Rightarrow> char" where
  "digit d = ''0123456789'' ! d"

fun decimal :: "nat \<Rightarrow> string" where
  "decimal n = (if n < 10 then [digit n] else decimal (n div 10) @ [digit (n mod 10)])"

declare decimal.simps [simp del]

text \<open>
  \<open>fmt.Fprintln\<close>: the operands in their default format, a space between every two of
  them, and a newline at the end. The operands are given already formatted.
\<close>

fun Sprintln :: "string list \<Rightarrow> string" where
  "Sprintln [] = [NL]"
| "Sprintln [a] = a @ [NL]"
| "Sprintln (a # b # rest) = a @ SP # Sprintln (b # rest)"

text \<open>
  \<open>strings.Split(s, " ")\<close>: the fields between the spaces of \<open>s\<close>; a string with \<open>n\<close>
  spaces has \<open>n + 1\<close> fields, and the empty string has the one field \<open>""\<close>.
\<close>

fun Split :: "string \<Rightarrow> string list" where
  "Split [] = [[]]"
| "Split (c # cs) =
     (if c = SP then [] # Split cs
      else (case Split cs of f # fs \<Rightarrow> (c # f) # fs | [] \<Rightarrow> [[c]]))"

text \<open>
  How a call ends: it returns a value, the process exits through \<open>log.Fatal\<close>
  (\<open>os.Exit(1)\<close>), or the process crashes with a run-time panic. A panic in the
  background task is not recovered, so it ends the whole process.
\<close>

datatype panic = SliceBounds | IndexRange nat

datatype 'a exec = Ret 'a | Exit | Crash panic

section \<open>The session, the peer and the local file system\<close>

text \<open>
  One call of \<open>reader.Read(buf)\<close> on the peer's output either delivers bytes with a
  \<open>nil\<close> error, delivers bytes (possibly none) together with \<open>io.EOF\<close>, or fails with
  another error. The code never looks at the byte count of a failed read.
\<close>

datatype read_result = Data string | DataEOF string | Failed string

text \<open>
  The peer's output is the result of every successive call of \<open>Read\<close>: call number
  \<open>0\<close> is the first. A finite stream is a script followed by end-of-stream for ever.
\<close>

type_synonym reader = "nat \<Rightarrow> read_result"

definition script :: "read_result list \<Rightarrow> reader" where
  "script rs = (\<lambda>i. if i < length rs then rs ! i else DataEOF [])"

text \<open>
  \<open>io.Reader\<close> promises \<open>0 \<le> n \<le> len(buf)\<close>: a read into a buffer of \<open>cap\<close> bytes
  delivers at most \<open>cap\<close> bytes.
\<close>

definition Read :: "reader \<Rightarrow> nat \<Rightarrow> nat \<Rightarrow> read_result" where
  "Read rd i cap =
     (case rd i of
        Data b \<Rightarrow> Data (take cap b)
      | DataEOF b \<Rightarrow> DataEOF (take cap b)
      | Failed m \<Rightarrow> Failed m)"

fun delivered :: "read_result \<Rightarrow> string" where
  "delivered (Data b) = b"
| "delivered (DataEOF b) = b"
| "delivered (Failed m) = []"

fun isData :: "read_result \<Rightarrow> bool" where
  "isData (Data b) = True"
| "isData (DataEOF b) = False"
| "isData (Failed m) = False"

fun isEOF :: "read_result \<Rightarrow> bool" where
  "isEOF (Data b) = False"
| "isEOF (DataEOF b) = True"
| "isEOF (Failed m) = False"

fun isFailed :: "read_result \<Rightarrow> bool" where
  "isFailed (Data b) = False"
| "isFailed (DataEOF b) = False"
| "isFailed (Failed m) = True"

text \<open>
  What the environment answers to the calls the engines make on the SSH client, the
  session and the local disk: \<open>client.NewSession()\<close>, \<open>session.StdinPipe()\<close>,
  \<open>session.StdoutPipe()\<close>, \<open>session.Run(cmd)\<close> (the remote command's exit status),
  whether a local path can be created, and \<open>file.Sync()\<close>.
\<close>

record env =
  newSessionErr :: "string option"
  stdinPipeErr :: "string option"
  stdoutPipeErr :: "string option"
  runErr :: "string option"
  creatable :: "string \<Rightarrow> bool"
  syncErr :: "string option"
  peer :: reader

text \<open>
  What a run does to the world: the calls on the session in the order they are made,
  and the local files. A write is recorded whether or not the peer accepts it, since
  the code drops the result of every write.
\<close>

datatype event =
    Wr string
  | Rd nat read_result
  | Run string
  | CloseW

record world =
  wire :: "event list"
  files :: "string \<rightharpoonup> string"

definition emit :: "event \<Rightarrow> world \<Rightarrow> world" where
  "emit e w = w\<lparr>wire := wire w @ [e]\<rparr>"

text \<open>The bytes written to the peer, in order.\<close>

fun written :: "event list \<Rightarrow> string" where
  "written [] = []"
| "written (Wr b # es) = b @ written es"
| "written (e # es) = written es"

text \<open>
  \<open>ioutil.ReadFile(path)\<close>: the bytes of the file and no error, or no bytes and an
  error when there is no readable file at the path.
\<close>

definition ReadFile :: "world \<Rightarrow> string \<Rightarrow> string \<times> string option" where
  "ReadFile w path =
     (case files w path of
        Some c \<Rightarrow> (c, None)
      | None \<Rightarrow> ([], Some ''open: no such file or directory''))"

text \<open>
  Modelled from the spec: \<open>createNewFile\<close> is called at lines 155 and 157 and defined
  in a file of the repository that is not among the sources. The spec: the engine
  ``opens (creates/truncates) the destination file'', and a local file-system error on
  open terminates the process. The file handle is the path.
\<close>

definition createNewFile :: "env \<Rightarrow> string \<Rightarrow> world \<Rightarrow> world exec" where
  "createNewFile e path w =
     (if creatable e path then Ret (w\<lparr>files := (files w)(path \<mapsto> [])\<rparr>) else Exit)"

text \<open>
  Modelled from the spec: \<open>writeParitalToFile\<close> is called at line 169 and defined in a
  file of the repository that is not among the sources. The spec: the engine ``appends''
  what it read ``to the destination file''.
\<close>

definition writeParitalToFile :: "string \<Rightarrow> string \<Rightarrow> world \<Rightarrow> world" where
  "writeParitalToFile file b w =
     w\<lparr>files := (files w)(file \<mapsto> (case files w file of Some c \<Rightarrow> c @ b | None \<Rightarrow> b))\<rparr>"

section \<open>The send engine: \<open>CopyLocalFileToRemote\<close>\<close>

text \<open>
  The background task of lines 200 to 206. The error of \<open>ReadFile\<close> is dropped; the
  three prints are three writes on the pipe.
\<close>

definition sendTask :: "string \<Rightarrow> string \<Rightarrow> world \<Rightarrow> world" where
  "sendTask localFilePath filename w =
     (let (fileContents, _) = ReadFile w (localFilePath @ ''/'' @ filename);
          content = fileContents;
          w1 = emit (Wr (Sprintln [''C0644'', decimal (length content), filename])) w;
          w2 = emit (Wr content) w1;
          w3 = emit (Wr (Sprintln [[NUL]])) w2
      in w3)"

text \<open>
  Lines 185 to 210. The background task is started before \<open>session.Run\<close> and is not
  waited for; here it runs to its end, and the scheduling of the two is outside the
  model. The result of \<open>session.Run\<close> is dropped.
\<close>

definition CopyLocalFileToRemote ::
  "env \<Rightarrow> string \<Rightarrow> string \<Rightarrow> world \<Rightarrow> string option exec \<times> world" where
  "CopyLocalFileToRemote e localFilePath filename w =
     (case newSessionErr e of
        Some err \<Rightarrow> (Exit, w)
      | None \<Rightarrow>
          (case stdinPipeErr e of
             Some err \<Rightarrow> (Ret (Some err), w)
           | None \<Rightarrow>
               (let w1 = sendTask localFilePath filename w;
                    w2 = emit (Run ''/usr/bin/scp -t ./'') w1;
                    w3 = emit CloseW w2
                in (Ret None, w3))))"

section \<open>The receive engine: \<open>CopyRemoteFileToLocal\<close>\<close>

text \<open>
  Lines 130 to 140: one call of \<open>Read\<close> into a buffer of 100 bytes. An error other
  than end-of-stream is fatal; otherwise the bytes of this one read are the start line.
\<close>

definition readStartLine :: "reader \<Rightarrow> world \<Rightarrow> string exec \<times> world" where
  "readStartLine rd w =
     (let r = Read rd 0 100;
          w1 = emit (Rd 100 r) w
      in case r of
           Failed m \<Rightarrow> (Exit, w1)
         | _ \<Rightarrow> (Ret (delivered r), w1))"

text \<open>
  Lines 141 to 145. \<open>scpStartLineArray[0][1:]\<close> panics when the first field is empty,
  \<open>scpStartLineArray[1]\<close> and \<open>scpStartLineArray[2]\<close> panic when the field is not there.
  Nothing else is checked. The result is (permission, size, file name), all three text.
\<close>

definition parseStartLine :: "string \<Rightarrow> (string \<times> string \<times> string) exec" where
  "parseStartLine scpStartLine =
     (let scpStartLineArray = Split scpStartLine
      in if length (scpStartLineArray ! 0) < 1 then Crash SliceBounds
         else if length scpStartLineArray \<le> 1 then Crash (IndexRange 1)
         else if length scpStartLineArray \<le> 2 then Crash (IndexRange 2)
         else Ret (drop 1 (scpStartLineArray ! 0), scpStartLineArray ! 1, scpStartLineArray ! 2))"

text \<open>
  The loop of lines 159 to 171, with a bound on the number of iterations: \<open>None\<close> means
  the loop is still running when the bound is reached. \<open>i\<close> is the number of the next
  call of \<open>Read\<close>. The buffer has one byte.
\<close>

fun streamLoop :: "nat \<Rightarrow> reader \<Rightarrow> nat \<Rightarrow> string \<Rightarrow> world \<Rightarrow> (unit exec \<times> world) option" where
  "streamLoop 0 rd i file w = None"
| "streamLoop (Suc fuel) rd i file w =
     (let r = Read rd i 1;
          w1 = emit (Rd 1 r) w
      in case r of
           Failed m \<Rightarrow> Some (Exit, w1)
         | _ \<Rightarrow>
            (let w2 = writeParitalToFile file (delivered r) w1;
                 w3 = emit (Wr successfulByte) w2
             in if isEOF r then Some (Ret (), w3)
                else streamLoop fuel rd (Suc i) file w3))"

text \<open>The background task of lines 123 to 177. The log line of line 147 is left out.\<close>

definition receiveTask ::
  "nat \<Rightarrow> env \<Rightarrow> string \<Rightarrow> string \<Rightarrow> world \<Rightarrow> (unit exec \<times> world) option" where
  "receiveTask fuel e localFilePath localFileName w =
     (let w1 = emit (Wr successfulByte) w
      in case readStartLine (peer e) w1 of
           (Exit, w2) \<Rightarrow> Some (Exit, w2)
         | (Crash p, w2) \<Rightarrow> Some (Crash p, w2)
         | (Ret scpStartLine, w2) \<Rightarrow>
            (case parseStartLine scpStartLine of
               Exit \<Rightarrow> Some (Exit, w2)
             | Crash p \<Rightarrow> Some (Crash p, w2)
             | Ret (filePermission, fileSize, fileName) \<Rightarrow>
                (let w3 = emit (Wr successfulByte) w2;
                     file = (if localFileName = [] then localFilePath @ ''/'' @ fileName
                             else localFilePath @ ''/'' @ localFileName)
                 in case createNewFile e file w3 of
                      Exit \<Rightarrow> Some (Exit, w3)
                    | Crash p \<Rightarrow> Some (Crash p, w3)
                    | Ret w4 \<Rightarrow>
                       (case streamLoop fuel (peer e) 1 file w4 of
                          None \<Rightarrow> None
                        | Some (Ret u, w5) \<Rightarrow>
                            (case syncErr e of
                               Some err \<Rightarrow> Some (Exit, w5)
                             | None \<Rightarrow> Some (Ret (), w5))
                        | Some (Exit, w5) \<Rightarrow> Some (Exit, w5)
                        | Some (Crash p, w5) \<Rightarrow> Some (Crash p, w5)))))"

text \<open>
  Lines 101 to 183. The background task and \<open>session.Run\<close> run side by side and are
  joined by the wait group; here the command is issued and the task runs to its end.
  The result of \<open>session.Run\<close> is dropped.
\<close>

definition CopyRemoteFileToLocal ::
  "nat \<Rightarrow> env \<Rightarrow> string \<Rightarrow> string \<Rightarrow> string \<Rightarrow> string \<Rightarrow> world
     \<Rightarrow> (string option exec \<times> world) option" where
  "CopyRemoteFileToLocal fuel e remoteFilePath remoteFilename localFilePath localFileName w =
     (case newSessionErr e of
        Some err \<Rightarrow> Some (Exit, w)
      | None \<Rightarrow>
          (case stdinPipeErr e of
             Some err \<Rightarrow> Some (Ret (Some err), w)
           | None \<Rightarrow>
               (case stdoutPipeErr e of
                  Some err \<Rightarrow> Some (Ret (Some err), w)
                | None \<Rightarrow>
                    (let w0 = emit (Run (''/usr/bin/scp -f '' @ remoteFilePath @ ''/'' @ remoteFilename)) w
                     in case receiveTask fuel e localFilePath localFileName w0 of
                          None \<Rightarrow> None
                        | Some (Ret u, w1) \<Rightarrow> Some (Ret None, emit CloseW w1)
                        | Some (Exit, w1) \<Rightarrow> Some (Exit, w1)
                        | Some (Crash p, w1) \<Rightarrow> Some (Crash p, w1)))))"

section \<open>Concrete runs\<close>

text \<open>
  An environment in which the session and both pipes are obtained, every local path can
  be created, the sync succeeds, and the peer's output is \<open>rd\<close>.
\<close>

definition okEnv :: "reader \<Rightarrow> env" where
  "okEnv rd = \<lparr>newSessionErr = None, stdinPipeErr = None, stdoutPipeErr = None,
     runErr = None, creatable = (\<lambda>p. True), syncErr = None, peer = rd\<rparr>"

text \<open>A world with nothing on the wire yet and the given local files.\<close>

definition fresh :: "(string \<rightharpoonup> string) \<Rightarrow> world" where
  "fresh fs = \<lparr>wire = [], files = fs\<rparr>"

section \<open>Parsing and printing composed\<close>

text \<open>
  The grammar of the wire format: \<open>C\<close>, four octal digits, a space, a decimal size, a
  space, a file name without spaces, a newline.
\<close>

definition isOctal :: "char \<Rightarrow> bool" where
  "isOctal c = (c \<in> set ''01234567'')"

definition isDigit :: "char \<Rightarrow> bool" where
  "isDigit c = (c \<in> set ''0123456789'')"

definition wellFormedLine :: "string \<Rightarrow> bool" where
  "wellFormedLine l =
     (case Split l of
        [f0, f1, f2] \<Rightarrow>
          (case f0 of
             c # m \<Rightarrow> c = CHR ''C'' \<and> length m = 4 \<and> list_all isOctal m
           | [] \<Rightarrow> False)
          \<and> f1 \<noteq> [] \<and> list_all isDigit f1
          \<and> (case rev f2 of
                 c # name \<Rightarrow> c = NL \<and> name \<noteq> [] \<and> NL \<notin> set name
               | [] \<Rightarrow> False)
      | _ \<Rightarrow> False)"

text \<open>
  The number a decimal size stands for. The receive engine keeps the size as text and
  the send engine prints a number; composing the two needs this reading.
\<close>

definition digitValue :: "char \<Rightarrow> nat" where
  "digitValue c = of_char c - 48"

definition decimalValue :: "string \<Rightarrow> nat" where
  "decimalValue s = foldl (\<lambda>a c. 10 * a + digitValue c) 0 s"

text \<open>
  \<open>Format(Parse(line))\<close>: the start line is parsed as at lines 141 to 145, and a
  control line is printed as at line 203 for a content of the parsed size under the
  parsed file name.
\<close>

definition FormatParse :: "string \<Rightarrow> string exec" where
  "FormatParse line =
     (case parseStartLine line of
        Ret (filePermission, fileSize, fileName) \<Rightarrow>
          Ret (Sprintln [''C0644'', decimal (decimalValue fileSize), fileName])
      | Exit \<Rightarrow> Exit
      | Crash p \<Rightarrow> Crash p)"

section \<open>Reading runs off the wire\<close>

text \<open>The results of the reads made with a buffer of \<open>c\<close> bytes, in order.\<close>

fun readsOf :: "nat \<Rightarrow> event list \<Rightarrow> read_result list" where
  "readsOf c [] = []"
| "readsOf c (Rd c' r # es) = (if c' = c then r # readsOf c es else readsOf c es)"
| "readsOf c (Wr b # es) = readsOf c es"
| "readsOf c (Run cmd # es) = readsOf c es"
| "readsOf c (CloseW # es) = readsOf c es"

text \<open>
  \<open>n\<close> one-byte reads, numbers \<open>i\<close> to \<open>i + n - 1\<close>, each followed by one
  acknowledgment; and the bytes these reads deliver.
\<close>

definition ackedReads :: "reader \<Rightarrow> nat \<Rightarrow> nat \<Rightarrow> event list" where
  "ackedReads rd i n = concat (map (\<lambda>j. [Rd 1 (Read rd j 1), Wr successfulByte]) [i..<i + n])"

definition deliveredBytes :: "reader \<Rightarrow> nat \<Rightarrow> nat \<Rightarrow> string" where
  "deliveredBytes rd i n = concat (map (\<lambda>j. delivered (Read rd j 1)) [i..<i + n])"

text \<open>
  The reading of the start line in the words of the spec: ``reads from the peer until a
  read error (including end-of-stream) or a buffer fill'', the accumulated bytes being
  the line. \<open>room\<close> is what is left of the buffer, \<open>None\<close> means the reading is still going
  on after \<open>fuel\<close> reads.
\<close>

fun readUntilErrorOrFull :: "nat \<Rightarrow> reader \<Rightarrow> nat \<Rightarrow> nat \<Rightarrow> string \<Rightarrow> string option" where
  "readUntilErrorOrFull 0 rd i room acc = None"
| "readUntilErrorOrFull (Suc fuel) rd i room acc =
     (if room = 0 then Some acc
      else (case Read rd i room of
              Failed m \<Rightarrow> Some acc
            | DataEOF b \<Rightarrow> Some (acc @ b)
            | Data b \<Rightarrow> readUntilErrorOrFull fuel rd (Suc i) (room - length b) (acc @ b)))"

text \<open>
  Where the loop stands when read number \<open>i + k\<close> is the first that is not plain
  data: \<open>k\<close> acknowledged reads, then that read, acknowledged when it is the end of the
  stream; the file, which held \<open>c\<close>, has the bytes of all these reads appended.
\<close>

definition loopEnd :: "reader \<Rightarrow> nat \<Rightarrow> nat \<Rightarrow> string \<Rightarrow> string \<Rightarrow> world \<Rightarrow> unit exec \<times> world" where
  "loopEnd rd i k file c w =
     (if isEOF (rd (i + k)) then Ret () else Exit,
      w\<lparr>wire := wire w @ ackedReads rd i k
                  @ Rd 1 (Read rd (i + k) 1) # (if isEOF (rd (i + k)) then [Wr successfulByte] else []),
        files := (files w)(file \<mapsto> c @ deliveredBytes rd i (Suc k))\<rparr>)"

text \<open>The destination of lines 154 to 158.\<close>

definition destination :: "string \<Rightarrow> string \<Rightarrow> string \<Rightarrow> string" where
  "destination localFilePath localFileName fileName =
     (if localFileName = [] then localFilePath @ ''/'' @ fileName
      else localFilePath @ ''/'' @ localFileName)"

text \<open>
  The world in which the loop is entered: the first acknowledgment, the read of the
  start line, the second acknowledgment, and the destination created empty.
\<close>

definition entered :: "env \<Rightarrow> string \<Rightarrow> world \<Rightarrow> world" where
  "entered e dest w =
     w\<lparr>wire := wire w @ [Wr successfulByte, Rd 100 (Read (peer e) 0 100), Wr successfulByte],
       files := (files w)(dest \<mapsto> [])\<rparr>"

text \<open>
  A peer that sends the start line \<open>C0644 sz hello.txt\<close> and then the two bytes
  \<open>hi\<close>, one per read, whatever size \<open>sz\<close> it declared.
\<close>

definition helloPeer :: "string \<Rightarrow> reader" where
  "helloPeer sz = script [Data (''C0644 '' @ sz @ '' hello.txt''), Data ''h'', Data ''i'']"

section \<open>Basic facts\<close>

lemma written_append: "written (xs @ ys) = written xs @ written ys"
  by (induction xs rule: written.induct) simp_all

lemma decimal_lt10: "n < 10 \<Longrightarrow> decimal n = [digit n]"
  by (simp add: decimal.simps)

section \<open>The send engine\<close>

text \<open>
  C1. When the session and the write pipe are obtained and the local file holds
  \<open>content\<close>, the bytes \<open>CopyLocalFileToRemote\<close> writes to the peer are exactly
  \<open>"C0644 "\<close>, the decimal byte length of the content, a space, the file name and a
  newline, then the content, then a null byte and a newline. For empty content the
  control line declares size \<open>0\<close> and the terminator follows it at once.
\<close>

theorem send_writes_line_content_terminator:
  assumes "newSessionErr e = None" and "stdinPipeErr e = None"
    and "files w (localFilePath @ ''/'' @ filename) = Some content"
  shows "written (wire (snd (CopyLocalFileToRemote e localFilePath filename w)))
           = written (wire w) @ ''C0644 '' @ decimal (length content) @ '' '' @ filename @ [NL]
               @ content @ [NUL, NL]
         \<and> (content = [] \<longrightarrow>
              written (wire (snd (CopyLocalFileToRemote e localFilePath filename w)))
                = written (wire w) @ ''C0644 0 '' @ filename @ [NL] @ [NUL, NL])"
  using assms
  by (simp add: CopyLocalFileToRemote_def sendTask_def ReadFile_def emit_def written_append
      SP_def decimal_lt10 digit_def)

theorem send_writes_line_content_terminator_witness:
  "written (wire (snd (CopyLocalFileToRemote (okEnv (script [])) ''d'' ''f''
      (fresh [''d/f'' \<mapsto> ''hi'']))))
     = ''C0644 2 f'' @ [NL] @ ''hi'' @ [NUL, NL]
   \<and> written (wire (snd (CopyLocalFileToRemote (okEnv (script [])) ''d'' ''g''
      (fresh [''d/g'' \<mapsto> []]))))
     = ''C0644 0 g'' @ [NL] @ [NUL, NL]"
  using send_writes_line_content_terminator
          [of "okEnv (script [])" "fresh [''d/f'' \<mapsto> ''hi'']" "''d''" "''f''" "''hi''"]
        send_writes_line_content_terminator
          [of "okEnv (script [])" "fresh [''d/g'' \<mapsto> []]" "''d''" "''g''" "[]"]
  by (simp add: okEnv_def fresh_def decimal_lt10 digit_def)



section \<open>The control-line codec\<close>

lemma Split_not_Nil: "Split s \<noteq> []"
  by (induction s) (auto split: list.splits)

lemma digitValue_digit: "d < 10 \<Longrightarrow> digitValue (digit d) = d"
  by (auto simp: digit_def digitValue_def less_Suc_eq numeral_eq_Suc nth_Cons')

lemma digit_not_SP: "d < 10 \<Longrightarrow> SP \<noteq> digit d"
  by (auto simp: digit_def SP_def less_Suc_eq numeral_eq_Suc nth_Cons')

lemma decimal_no_space: "SP \<notin> set (decimal n)"
proof (induction n rule: decimal.induct)
  case (1 n)
  show ?case
  proof (cases "n < 10")
    case True
    then show ?thesis by (simp add: decimal.simps[of n] digit_not_SP)
  next
    case False
    with 1 show ?thesis by (simp add: decimal.simps[of n] digit_not_SP)
  qed
qed

lemma decimalValue_snoc: "decimalValue (s @ [c]) = 10 * decimalValue s + digitValue c"
  by (simp add: decimalValue_def)

lemma decimalValue_decimal: "decimalValue (decimal n) = n"
proof (induction n rule: decimal.induct)
  case (1 n)
  show ?case
  proof (cases "n < 10")
    case True
    then show ?thesis by (simp add: decimal.simps[of n] decimalValue_def digitValue_digit)
  next
    case False
    with 1 show ?thesis
      by (simp add: decimal.simps[of n] decimalValue_snoc digitValue_digit)
  qed
qed

text \<open>The parse, by the number of fields and the first field.\<close>

lemma parse_cases:
  "parseStartLine l =
     (if Split l ! 0 = [] then Crash SliceBounds
      else if length (Split l) = 1 then Crash (IndexRange 1)
      else if length (Split l) = 2 then Crash (IndexRange 2)
      else Ret (drop 1 (Split l ! 0), Split l ! 1, Split l ! 2))"
proof (cases "Split l")
  case Nil
  then show ?thesis using Split_not_Nil by simp
next
  case (Cons f fs)
  then show ?thesis
    by (cases fs) (auto simp: parseStartLine_def Let_def)
qed

text \<open>
  C8. A start line panics in the parse exactly when it has fewer than three fields
  between spaces or its first field is empty: the parse checks nothing else, and any
  other line gives the first field without its first byte, the second and the third
  field as they are. When the first read delivers such a line, the panic ends the whole
  call as a crash of the process; it is not an error value returned to the caller.
\<close>

theorem short_line_panics:
  "((\<exists>p. parseStartLine l = Crash p) \<longleftrightarrow> (length (Split l) < 3 \<or> Split l ! 0 = []))
   \<and> (length (Split l) < 3 \<or> Split l ! 0 = [] \<longrightarrow>
        (\<forall>fuel e remoteFilePath remoteFilename localFilePath localFileName w.
           newSessionErr e = None \<and> stdinPipeErr e = None \<and> stdoutPipeErr e = None
           \<and> \<not> isFailed (Read (peer e) 0 100) \<and> delivered (Read (peer e) 0 100) = l
           \<longrightarrow> (\<exists>p w'. CopyRemoteFileToLocal fuel e remoteFilePath remoteFilename
                          localFilePath localFileName w = Some (Crash p, w'))))
   \<and> (\<not> (length (Split l) < 3 \<or> Split l ! 0 = []) \<longrightarrow>
        parseStartLine l = Ret (drop 1 (Split l ! 0), Split l ! 1, Split l ! 2))"
proof -
  have len: "length (Split l) \<noteq> 0" using Split_not_Nil by simp
  from len have "length (Split l) = 1 \<or> length (Split l) = 2 \<or> 3 \<le> length (Split l)"
    by arith
  then have a: "(\<exists>p. parseStartLine l = Crash p) \<longleftrightarrow> (length (Split l) < 3 \<or> Split l ! 0 = [])"
    by (auto simp: parse_cases)
  have c: "\<not> (length (Split l) < 3 \<or> Split l ! 0 = []) \<longrightarrow>
        parseStartLine l = Ret (drop 1 (Split l ! 0), Split l ! 1, Split l ! 2)"
    by (auto simp: parse_cases)
  have b: "\<exists>p w'. CopyRemoteFileToLocal fuel e remoteFilePath remoteFilename
                          localFilePath localFileName w = Some (Crash p, w')"
    if short: "length (Split l) < 3 \<or> Split l ! 0 = []"
      and ok: "newSessionErr e = None" "stdinPipeErr e = None" "stdoutPipeErr e = None"
      and rd: "\<not> isFailed (Read (peer e) 0 100)" "delivered (Read (peer e) 0 100) = l"
    for fuel e remoteFilePath remoteFilename localFilePath localFileName w
  proof -
    from short a obtain p where p: "parseStartLine l = Crash p" by blast
    from rd have "\<exists>w2. readStartLine (peer e) w1 = (Ret l, w2)" for w1
      by (cases "Read (peer e) 0 100") (simp_all add: readStartLine_def Let_def)
    then obtain w2 where "readStartLine (peer e)
        (emit (Wr successfulByte)
           (emit (Run (''/usr/bin/scp -f '' @ remoteFilePath @ ''/'' @ remoteFilename)) w))
         = (Ret l, w2)" by blast
    then have "receiveTask fuel e localFilePath localFileName
        (emit (Run (''/usr/bin/scp -f '' @ remoteFilePath @ ''/'' @ remoteFilename)) w)
         = Some (Crash p, w2)"
      using p by (simp add: receiveTask_def Let_def)
    then show ?thesis using ok
      by (simp add: CopyRemoteFileToLocal_def Let_def)
  qed
  show ?thesis using a b c by blast
qed

theorem short_line_panics_witness:
  "parseStartLine ''C0644 5'' = Crash (IndexRange 2)
   \<and> parseStartLine [] = Crash SliceBounds
   \<and> parseStartLine ''Cabc x% y'' = Ret (''abc'', ''x%'', ''y'')
   \<and> (\<exists>p w'. CopyRemoteFileToLocal 0 (okEnv (script [Data ''C0644 5''])) ''r'' ''f'' ''d'' []
         (fresh Map.empty) = Some (Crash p, w'))"
  using short_line_panics [of "''C0644 5''"] short_line_panics [of "[]"]
    short_line_panics [of "''Cabc x% y''"]
  by (simp add: parseStartLine_def SP_def okEnv_def script_def Read_def)

lemma Split_fields_no_space: "f \<in> set (Split l) \<Longrightarrow> SP \<notin> set f"
proof (induction l arbitrary: f)
  case Nil
  then show ?case by simp
next
  case (Cons c cs)
  show ?case
  proof (cases "c = SP")
    case True
    with Cons show ?thesis by auto
  next
    case False
    obtain g gs where g: "Split cs = g # gs" using Split_not_Nil by (cases "Split cs") auto
    with Cons False show ?thesis by auto
  qed
qed

lemma Split_join: "Split l = a # rest \<Longrightarrow> l = a @ concat (map (\<lambda>f. SP # f) rest)"
proof (induction l arbitrary: a rest)
  case Nil
  then show ?case by simp
next
  case (Cons c cs)
  obtain g gs where g: "Split cs = g # gs" using Split_not_Nil by (cases "Split cs") auto
  from Cons.IH [OF g] have cs: "cs = g @ concat (map (\<lambda>f. SP # f) gs)" .
  show ?case
  proof (cases "c = SP")
    case True
    with Cons.prems g have "a = []" "rest = g # gs" by auto
    with True cs show ?thesis by simp
  next
    case False
    with Cons.prems g have "a = c # g" "rest = gs" by auto
    with cs show ?thesis by simp
  qed
qed

lemma Split_join3: "Split l = [a, b, c] \<Longrightarrow> l = a @ SP # b @ SP # c"
  using Split_join [of l a "[b, c]"] by simp

lemma first_space_unique:
  "SP \<notin> set a \<Longrightarrow> SP \<notin> set b \<Longrightarrow> a @ SP # x = b @ SP # y \<Longrightarrow> a = b \<and> x = y"
proof (induction a arbitrary: b)
  case Nil
  then show ?case by (cases b) auto
next
  case (Cons c a)
  then show ?case by (cases b) auto
qed

lemma FormatParse_of_three:
  assumes "Split l = [f0, f1, f2]" and "f0 \<noteq> []"
  shows "FormatParse l = Ret (''C0644'' @ SP # decimal (decimalValue f1) @ SP # f2 @ [NL])"
  using assms by (simp add: FormatParse_def parseStartLine_def)

text \<open>
  C3, as amended. For every line of the grammar: formatting its parse gives a text that
  begins with the line itself exactly when the mode of the line is \<open>0644\<close> and its size
  is the decimal print of a number, without leading zeros. The send engine prints the
  fixed \<open>C0644\<close> and the size without padding, so a line with another mode or a padded
  size is not given back. What follows the line in the formatted text is not stated
  here.
\<close>

theorem format_parse_begins_with_line:
  assumes "wellFormedLine l"
  shows "(\<exists>rest. FormatParse l = Ret (l @ rest))
           \<longleftrightarrow> Split l ! 0 = ''C0644'' \<and> (\<exists>n. Split l ! 1 = decimal n)"
proof -
  from assms obtain f0 f1 f2 where s: "Split l = [f0, f1, f2]" and f0: "f0 \<noteq> []"
    by (auto simp: wellFormedLine_def split: list.splits)
  have l: "l = f0 @ SP # f1 @ SP # f2" using s by (rule Split_join3)
  have r: "FormatParse l = Ret (''C0644'' @ SP # decimal (decimalValue f1) @ SP # f2 @ [NL])"
    using s f0 by (rule FormatParse_of_three)
  have n0: "SP \<notin> set f0" and n1: "SP \<notin> set f1"
    using Split_fields_no_space [of _ l] s by simp_all
  have c: "SP \<notin> set ''C0644''" by (simp add: SP_def)
  show ?thesis
  proof
    assume "\<exists>rest. FormatParse l = Ret (l @ rest)"
    then obtain rest where "FormatParse l = Ret (l @ rest)" ..
    with r l have e: "''C0644'' @ SP # (decimal (decimalValue f1) @ SP # f2 @ [NL])
        = f0 @ SP # (f1 @ SP # f2 @ rest)" by simp
    from first_space_unique [OF c n0 e]
    have a: "f0 = ''C0644''"
      and e2: "decimal (decimalValue f1) @ SP # (f2 @ [NL]) = f1 @ SP # (f2 @ rest)" by simp_all
    from first_space_unique [OF decimal_no_space n1 e2] have "f1 = decimal (decimalValue f1)"
      by simp
    with a s show "Split l ! 0 = ''C0644'' \<and> (\<exists>n. Split l ! 1 = decimal n)" by auto
  next
    assume "Split l ! 0 = ''C0644'' \<and> (\<exists>n. Split l ! 1 = decimal n)"
    then obtain n where "f0 = ''C0644''" "f1 = decimal n" using s by auto
    then have "FormatParse l = Ret (l @ [NL])"
      using r l by (simp add: decimalValue_decimal)
    then show "\<exists>rest. FormatParse l = Ret (l @ rest)" ..
  qed
qed

theorem format_parse_begins_with_line_witness:
  "wellFormedLine (''C0644 113828 test.csv'' @ [NL])
   \<and> (\<exists>rest. FormatParse (''C0644 113828 test.csv'' @ [NL])
                = Ret (''C0644 113828 test.csv'' @ [NL] @ rest))"
proof -
  have w: "wellFormedLine (''C0644 113828 test.csv'' @ [NL])"
    by (simp add: wellFormedLine_def SP_def NL_def isOctal_def isDigit_def)
  have "Split (''C0644 113828 test.csv'' @ [NL]) ! 0 = ''C0644''
      \<and> (\<exists>n. Split (''C0644 113828 test.csv'' @ [NL]) ! 1 = decimal n)"
    by (simp add: SP_def NL_def) (rule exI [of _ 113828], simp add: decimal.simps digit_def)
  with format_parse_begins_with_line [OF w] w show ?thesis by simp
qed

text \<open>
  The claim as it was stated, that formatting the parse gives the line itself, fails on
  lines of the grammar: one with another mode, one with a padded size, and the line the
  send engine itself prints.
\<close>

theorem format_parse_counterexample:
  "wellFormedLine (''C0755 5 a'' @ [NL])
   \<and> FormatParse (''C0755 5 a'' @ [NL]) = Ret (''C0644 5 a'' @ [NL, NL])
   \<and> FormatParse (''C0755 5 a'' @ [NL]) \<noteq> Ret (''C0755 5 a'' @ [NL])
   \<and> wellFormedLine (''C0644 05 a'' @ [NL])
   \<and> FormatParse (''C0644 05 a'' @ [NL]) = Ret (''C0644 5 a'' @ [NL, NL])
   \<and> FormatParse (''C0644 05 a'' @ [NL]) \<noteq> Ret (''C0644 05 a'' @ [NL])
   \<and> wellFormedLine (''C0644 5 a'' @ [NL])
   \<and> FormatParse (''C0644 5 a'' @ [NL]) = Ret (''C0644 5 a'' @ [NL, NL])
   \<and> FormatParse (''C0644 5 a'' @ [NL]) \<noteq> Ret (''C0644 5 a'' @ [NL])"
  by (simp add: wellFormedLine_def FormatParse_def parseStartLine_def SP_def NL_def isOctal_def
      isDigit_def decimalValue_def digitValue_def decimal_lt10 digit_def)

section \<open>The streaming loop\<close>

lemma Read_Data [simp]: "rd j = Data b \<Longrightarrow> Read rd j c = Data (take c b)"
  by (simp add: Read_def)

lemma Read_DataEOF [simp]: "rd j = DataEOF b \<Longrightarrow> Read rd j c = DataEOF (take c b)"
  by (simp add: Read_def)

lemma Read_Failed [simp]: "rd j = Failed m \<Longrightarrow> Read rd j c = Failed m"
  by (simp add: Read_def)

lemma isData_Read [simp]: "isData (Read rd j c) = isData (rd j)"
  by (cases "rd j") simp_all

lemma isEOF_Read [simp]: "isEOF (Read rd j c) = isEOF (rd j)"
  by (cases "rd j") simp_all

lemma isFailed_Read [simp]: "isFailed (Read rd j c) = isFailed (rd j)"
  by (cases "rd j") simp_all

lemma ackedReads_0 [simp]: "ackedReads rd i 0 = []"
  by (simp add: ackedReads_def)

lemma upt_head: "[i..<i + Suc n] = i # [Suc i..<Suc i + n]"
  using upt_conv_Cons [of i "i + Suc n"] by simp

lemma ackedReads_Suc:
  "ackedReads rd i (Suc n) = Rd 1 (Read rd i 1) # Wr successfulByte # ackedReads rd (Suc i) n"
  unfolding ackedReads_def upt_head by simp

lemma deliveredBytes_0 [simp]: "deliveredBytes rd i 0 = []"
  by (simp add: deliveredBytes_def)

lemma deliveredBytes_Suc:
  "deliveredBytes rd i (Suc n) = delivered (Read rd i 1) @ deliveredBytes rd (Suc i) n"
  unfolding deliveredBytes_def upt_head by simp

lemma deliveredBytes_snoc:
  "deliveredBytes rd i (Suc n) = deliveredBytes rd i n @ delivered (Read rd (i + n) 1)"
proof -
  have "[i..<i + Suc n] = [i..<i + n] @ [i + n]" by simp
  then show ?thesis unfolding deliveredBytes_def by simp
qed

lemma streamLoop_run:
  assumes "\<forall>j<k. isData (rd (i + j))" and "\<not> isData (rd (i + k))" and "k < fuel"
    and "files w file = Some c"
  shows "streamLoop fuel rd i file w = Some (loopEnd rd i k file c w)"
  using assms
proof (induction k arbitrary: fuel i w c)
  case 0
  then obtain f where f: "fuel = Suc f" by (cases fuel) auto
  show ?case
  proof (cases "rd i")
    case (Data b)
    with 0 show ?thesis by simp
  next
    case (DataEOF b)
    with 0 f show ?thesis
      by (simp add: loopEnd_def Let_def emit_def writeParitalToFile_def deliveredBytes_Suc)
  next
    case (Failed m)
    with 0 f show ?thesis
      by (simp add: loopEnd_def Let_def emit_def deliveredBytes_Suc map_upd_triv)
  qed
next
  case (Suc k)
  then obtain f where f: "fuel = Suc f" by (cases fuel) auto
  from Suc.prems(1) have d: "isData (rd i)" by (metis add.right_neutral zero_less_Suc)
  then obtain b where b: "rd i = Data b" by (cases "rd i") auto
  let ?w3 = "emit (Wr successfulByte) (writeParitalToFile file (take 1 b) (emit (Rd 1 (Data (take 1 b))) w))"
  have step: "streamLoop fuel rd i file w = streamLoop f rd (Suc i) file ?w3"
    using f b by (simp add: Let_def)
  have p1: "\<forall>j<k. isData (rd (Suc i + j))" using Suc.prems(1) by (metis Suc_less_eq add_Suc_shift)
  have p2: "\<not> isData (rd (Suc i + k))" using Suc.prems(2) by simp
  have p3: "k < f" using Suc.prems(3) f by simp
  have p4: "files ?w3 file = Some (c @ take 1 b)"
    using Suc.prems(4) by (simp add: emit_def writeParitalToFile_def)
  have "streamLoop f rd (Suc i) file ?w3 = Some (loopEnd rd (Suc i) k file (c @ take 1 b) ?w3)"
    by (rule Suc.IH [OF p1 p2 p3 p4])
  moreover have "loopEnd rd (Suc i) k file (c @ take 1 b) ?w3 = loopEnd rd i (Suc k) file c w"
    using b by (simp add: loopEnd_def emit_def writeParitalToFile_def ackedReads_Suc
        deliveredBytes_Suc [of rd i])
  ultimately show ?case using step by simp
qed

lemma streamLoop_None:
  assumes "\<forall>j<fuel. isData (rd (i + j))"
  shows "streamLoop fuel rd i file w = None"
  using assms
proof (induction fuel arbitrary: i w)
  case 0
  show ?case by simp
next
  case (Suc fuel)
  from Suc.prems have "isData (rd i)" by (metis add.right_neutral zero_less_Suc)
  then obtain b where b: "rd i = Data b" by (cases "rd i") auto
  have "\<forall>j<fuel. isData (rd (Suc i + j))" using Suc.prems by (metis Suc_less_eq add_Suc_shift)
  then show ?case using b Suc.IH by (simp add: Let_def)
qed

lemma first_stop:
  assumes "\<not> (\<forall>j<n. P (j::nat))"
  shows "\<exists>k<n. (\<forall>j<k. P j) \<and> \<not> P k"
proof -
  from assms obtain m where m: "m < n" "\<not> P m" by blast
  define k where "k = (LEAST x. \<not> P x)"
  have "\<not> P k" unfolding k_def using m(2) by (rule LeastI)
  moreover have "k \<le> m" unfolding k_def using m(2) by (rule Least_le)
  moreover have "\<forall>j<k. P j" unfolding k_def using not_less_Least by blast
  ultimately have "k < n \<and> (\<forall>j<k. P j) \<and> \<not> P k" using m(1) by simp
  then show ?thesis by blast
qed

lemma streamLoop_result:
  assumes "streamLoop fuel rd i file w = Some res" and "files w file = Some c"
  shows "\<exists>k<fuel. (\<forall>j<k. isData (rd (i + j))) \<and> \<not> isData (rd (i + k))
           \<and> res = loopEnd rd i k file c w"
proof -
  have "\<not> (\<forall>j<fuel. isData (rd (i + j)))"
    using assms(1) streamLoop_None [of fuel rd i "file" w] by auto
  then obtain k where k: "k < fuel" "\<forall>j<k. isData (rd (i + j))" "\<not> isData (rd (i + k))"
    using first_stop [of fuel "\<lambda>j. isData (rd (i + j))"] by blast
  then have "streamLoop fuel rd i file w = Some (loopEnd rd i k file c w)"
    using streamLoop_run assms(2) by blast
  with assms(1) k show ?thesis by auto
qed

section \<open>The receive task\<close>

lemma readStartLine_eq:
  "readStartLine rd w =
     (if isFailed (rd 0) then Exit else Ret (delivered (Read rd 0 100)),
      emit (Rd 100 (Read rd 0 100)) w)"
  by (cases "rd 0") (simp_all add: readStartLine_def Let_def)

lemma receiveTask_failed:
  assumes "isFailed (peer e 0)"
  shows "receiveTask fuel e localFilePath localFileName w
           = Some (Exit, w\<lparr>wire := wire w @ [Wr successfulByte, Rd 100 (Read (peer e) 0 100)]\<rparr>)"
  using assms by (simp add: receiveTask_def readStartLine_eq emit_def)

lemma receiveTask_crash:
  assumes "\<not> isFailed (peer e 0)"
    and "parseStartLine (delivered (Read (peer e) 0 100)) = Crash p"
  shows "receiveTask fuel e localFilePath localFileName w
           = Some (Crash p, w\<lparr>wire := wire w @ [Wr successfulByte, Rd 100 (Read (peer e) 0 100)]\<rparr>)"
  using assms by (simp add: receiveTask_def readStartLine_eq emit_def)

lemma parse_not_Exit: "parseStartLine l \<noteq> Exit"
  by (simp add: parse_cases)

lemma receiveTask_uncreatable:
  assumes "\<not> isFailed (peer e 0)"
    and "parseStartLine (delivered (Read (peer e) 0 100)) = Ret (filePermission, fileSize, fileName)"
    and "\<not> creatable e (destination localFilePath localFileName fileName)"
  shows "receiveTask fuel e localFilePath localFileName w
     = Some (Exit, w\<lparr>wire := wire w @ [Wr successfulByte, Rd 100 (Read (peer e) 0 100),
                                         Wr successfulByte]\<rparr>)"
  using assms
  by (simp add: receiveTask_def readStartLine_eq emit_def destination_def createNewFile_def)

lemma receiveTask_loop:
  assumes "\<not> isFailed (peer e 0)"
    and "parseStartLine (delivered (Read (peer e) 0 100)) = Ret (filePermission, fileSize, fileName)"
    and "creatable e (destination localFilePath localFileName fileName)"
  shows "receiveTask fuel e localFilePath localFileName w
     = (case streamLoop fuel (peer e) 1 (destination localFilePath localFileName fileName)
              (entered e (destination localFilePath localFileName fileName) w) of
          None \<Rightarrow> None
        | Some (Ret u, w5) \<Rightarrow> (case syncErr e of Some err \<Rightarrow> Some (Exit, w5) | None \<Rightarrow> Some (Ret (), w5))
        | Some (Exit, w5) \<Rightarrow> Some (Exit, w5)
        | Some (Crash p, w5) \<Rightarrow> Some (Crash p, w5))"
  using assms
  by (simp add: receiveTask_def readStartLine_eq emit_def destination_def createNewFile_def
      entered_def Let_def)

lemma receiveTask_stop:
  assumes "\<not> isFailed (peer e 0)"
    and "parseStartLine (delivered (Read (peer e) 0 100)) = Ret (filePermission, fileSize, fileName)"
    and "creatable e (destination localFilePath localFileName fileName)"
    and "\<forall>j<k. isData (peer e (Suc j))" and "\<not> isData (peer e (Suc k))" and "k < fuel"
  shows "receiveTask fuel e localFilePath localFileName w
     = Some (if isEOF (peer e (Suc k)) \<and> syncErr e = None then Ret () else Exit,
             snd (loopEnd (peer e) 1 k (destination localFilePath localFileName fileName) []
                   (entered e (destination localFilePath localFileName fileName) w)))"
proof -
  let ?d = "destination localFilePath localFileName fileName"
  have "files (entered e ?d w) ?d = Some []" by (simp add: entered_def)
  then have "streamLoop fuel (peer e) 1 ?d (entered e ?d w)
      = Some (loopEnd (peer e) 1 k ?d [] (entered e ?d w))"
    using assms(4-6) by (intro streamLoop_run) simp_all
  then show ?thesis
    using receiveTask_loop [OF assms(1-3)]
    by (simp add: loopEnd_def split: option.splits)
qed

lemma receiveTask_running:
  assumes "\<not> isFailed (peer e 0)"
    and "parseStartLine (delivered (Read (peer e) 0 100)) = Ret (filePermission, fileSize, fileName)"
    and "creatable e (destination localFilePath localFileName fileName)"
    and "\<forall>j<fuel. isData (peer e (Suc j))"
  shows "receiveTask fuel e localFilePath localFileName w = None"
proof -
  have "streamLoop fuel (peer e) 1 (destination localFilePath localFileName fileName)
          (entered e (destination localFilePath localFileName fileName) w) = None"
    using assms(4) by (intro streamLoop_None) simp
  then show ?thesis using receiveTask_loop [OF assms(1-3)] by simp
qed


lemma isEOF_not_isData: "isEOF r \<Longrightarrow> \<not> isData r"
  by (cases r) simp_all

lemma readsOf_append: "readsOf c (xs @ ys) = readsOf c xs @ readsOf c ys"
  by (induction xs rule: readsOf.induct) simp_all

lemma ackedReads_snoc:
  "ackedReads rd i (Suc n) = ackedReads rd i n @ [Rd 1 (Read rd (i + n) 1), Wr successfulByte]"
proof -
  have "[i..<i + Suc n] = [i..<i + n] @ [i + n]" by simp
  then show ?thesis unfolding ackedReads_def by simp
qed

lemma readsOf_ackedReads: "readsOf 1 (ackedReads rd i n) = map (\<lambda>j. Read rd j 1) [i..<i + n]"
proof (induction n)
  case 0
  show ?case by simp
next
  case (Suc n)
  have "[i..<i + Suc n] = [i..<i + n] @ [i + n]" by simp
  then show ?case using Suc by (simp add: ackedReads_snoc readsOf_append del: One_nat_def)
qed

lemma wire_loopEnd_EOF:
  assumes "isEOF (rd (i + k))"
  shows "wire (snd (loopEnd rd i k dest c w)) = wire w @ ackedReads rd i (Suc k)"
  using assms by (simp add: loopEnd_def ackedReads_snoc)

lemma files_loopEnd:
  "files (snd (loopEnd rd i k dest c w)) dest = Some (c @ deliveredBytes rd i (Suc k))"
  by (simp add: loopEnd_def)

lemma readsOf_loopEnd:
  "readsOf 1 (wire (snd (loopEnd rd i k dest c w)))
     = readsOf 1 (wire w) @ map (\<lambda>j. Read rd j 1) [i..<i + Suc k]"
proof -
  have "[i..<i + Suc k] = [i..<i + k] @ [i + k]" by simp
  then show ?thesis
    by (simp add: loopEnd_def readsOf_append readsOf_ackedReads del: One_nat_def)
qed

lemma readsOf_entered: "readsOf 1 (wire (entered e dest w)) = readsOf 1 (wire w)"
  by (simp add: entered_def readsOf_append)

text \<open>
  C2. Entered with the destination created, the loop is left within \<open>fuel\<close>
  iterations exactly when one of the next \<open>fuel\<close> reads signals the end of the stream
  and every read before it delivered plain data; it is still running after \<open>fuel\<close>
  iterations exactly when all of them delivered plain data. (A read that fails with
  another error ends the process inside the loop: the loop is then neither left nor
  running.) The loop takes no size:
  whatever size the start line declared, the receive task makes the one-byte reads up
  to and including the first that signals the end of the stream, and no more.
\<close>

theorem loop_stops_at_end_of_stream:
  assumes "files w dest = Some c"
  shows "((\<exists>w'. streamLoop fuel rd i dest w = Some (Ret (), w'))
            \<longleftrightarrow> (\<exists>k<fuel. (\<forall>j<k. isData (rd (i + j))) \<and> isEOF (rd (i + k))))
         \<and> (streamLoop fuel rd i dest w = None \<longleftrightarrow> (\<forall>j<fuel. isData (rd (i + j))))
         \<and> (\<forall>e localFilePath localFileName filePermission fileSize fileName w0 k.
               \<not> isFailed (peer e 0)
               \<and> parseStartLine (delivered (Read (peer e) 0 100))
                   = Ret (filePermission, fileSize, fileName)
               \<and> creatable e (destination localFilePath localFileName fileName)
               \<and> (\<forall>j<k. isData (peer e (Suc j))) \<and> isEOF (peer e (Suc k)) \<and> k < fuel
               \<longrightarrow> (\<exists>st w'. receiveTask fuel e localFilePath localFileName w0 = Some (st, w')
                      \<and> readsOf 1 (wire w')
                          = readsOf 1 (wire w0) @ map (\<lambda>j. Read (peer e) j 1) [1..<k + 2]))"
proof -
  have a: "(\<exists>w'. streamLoop fuel rd i dest w = Some (Ret (), w'))
            \<longleftrightarrow> (\<exists>k<fuel. (\<forall>j<k. isData (rd (i + j))) \<and> isEOF (rd (i + k)))"
  proof
    assume "\<exists>w'. streamLoop fuel rd i dest w = Some (Ret (), w')"
    then obtain w' where "streamLoop fuel rd i dest w = Some (Ret (), w')" ..
    from streamLoop_result [OF this assms]
    obtain k where k: "k < fuel" "\<forall>j<k. isData (rd (i + j))"
      and r: "(Ret (), w') = loopEnd rd i k dest c w" by blast
    from r have "isEOF (rd (i + k))" by (simp add: loopEnd_def split: if_splits)
    with k show "\<exists>k<fuel. (\<forall>j<k. isData (rd (i + j))) \<and> isEOF (rd (i + k))" by blast
  next
    assume "\<exists>k<fuel. (\<forall>j<k. isData (rd (i + j))) \<and> isEOF (rd (i + k))"
    then obtain k where k: "k < fuel" "\<forall>j<k. isData (rd (i + j))" "isEOF (rd (i + k))" by blast
    then have "streamLoop fuel rd i dest w = Some (loopEnd rd i k dest c w)"
      using assms isEOF_not_isData by (intro streamLoop_run) simp_all
    with k(3) show "\<exists>w'. streamLoop fuel rd i dest w = Some (Ret (), w')"
      by (simp add: loopEnd_def)
  qed
  have b: "streamLoop fuel rd i dest w = None \<longleftrightarrow> (\<forall>j<fuel. isData (rd (i + j)))"
  proof
    assume n: "streamLoop fuel rd i dest w = None"
    show "\<forall>j<fuel. isData (rd (i + j))"
    proof (rule ccontr)
      assume "\<not> (\<forall>j<fuel. isData (rd (i + j)))"
      then obtain k where "k < fuel" "\<forall>j<k. isData (rd (i + j))" "\<not> isData (rd (i + k))"
        using first_stop [of fuel "\<lambda>j. isData (rd (i + j))"] by blast
      then have "streamLoop fuel rd i dest w = Some (loopEnd rd i k dest c w)"
        using assms by (intro streamLoop_run) simp_all
      with n show False by simp
    qed
  next
    assume "\<forall>j<fuel. isData (rd (i + j))"
    then show "streamLoop fuel rd i dest w = None" by (rule streamLoop_None)
  qed
  have r: "\<exists>st w'. receiveTask fuel e localFilePath localFileName w0 = Some (st, w')
                      \<and> readsOf 1 (wire w')
                          = readsOf 1 (wire w0) @ map (\<lambda>j. Read (peer e) j 1) [1..<k + 2]"
    if "\<not> isFailed (peer e 0)"
      and "parseStartLine (delivered (Read (peer e) 0 100)) = Ret (filePermission, fileSize, fileName)"
      and "creatable e (destination localFilePath localFileName fileName)"
      and "\<forall>j<k. isData (peer e (Suc j))" and "isEOF (peer e (Suc k))" and "k < fuel"
    for e localFilePath localFileName filePermission fileSize fileName w0 k
  proof -
    from that(5) have "\<not> isData (peer e (Suc k))" by (rule isEOF_not_isData)
    have u: "[1..<k + 2] = [1..<1 + Suc k]" by simp
    from receiveTask_stop [OF that(1-4) \<open>\<not> isData (peer e (Suc k))\<close> that(6)]
    show ?thesis unfolding u
      by (simp add: readsOf_loopEnd readsOf_entered del: One_nat_def upt_Suc)
  qed
  show ?thesis using a b r by blast
qed

lemma helloPeer_simps:
  "helloPeer sz 0 = Data (''C0644 '' @ sz @ '' hello.txt'')"
  "helloPeer sz 1 = Data ''h''"
  "helloPeer sz 2 = Data ''i''"
  "helloPeer sz 3 = DataEOF []"
  by (simp_all add: helloPeer_def script_def)

lemma helloPeer_data: "j < 2 \<Longrightarrow> isData (helloPeer sz (Suc j))"
proof -
  assume "j < 2"
  then have "j = 0 \<or> j = 1" by arith
  then show ?thesis using helloPeer_simps(2,3) [of sz] by (auto simp: numeral_2_eq_2)
qed

lemma helloPeer_end: "isEOF (helloPeer sz (Suc 2))"
  using helloPeer_simps(4) [of sz] by (simp add: numeral_3_eq_3 numeral_2_eq_2)

theorem loop_stops_at_end_of_stream_witness:
  "(\<exists>w'. streamLoop 3 (helloPeer ''5'') 1 ''d/x'' (fresh [''d/x'' \<mapsto> []]) = Some (Ret (), w'))
   \<and> streamLoop 2 (helloPeer ''5'') 1 ''d/x'' (fresh [''d/x'' \<mapsto> []]) = None
   \<and> (\<exists>st w'. receiveTask 3 (okEnv (helloPeer ''5'')) ''d'' [] (fresh Map.empty) = Some (st, w')
         \<and> readsOf 1 (wire w') = [Data ''h'', Data ''i'', DataEOF []])
   \<and> (\<exists>st w'. receiveTask 3 (okEnv (helloPeer ''1'')) ''d'' [] (fresh Map.empty) = Some (st, w')
         \<and> readsOf 1 (wire w') = [Data ''h'', Data ''i'', DataEOF []])"
proof -
  have f: "files (fresh [''d/x'' \<mapsto> []]) ''d/x'' = Some []" by (simp add: fresh_def)
  have d: "\<forall>j<2. isData (helloPeer sz (Suc j))" for sz
    using helloPeer_data by blast
  have e: "isEOF (helloPeer sz (Suc 2))" for sz
    by (rule helloPeer_end)
  have "\<exists>k<3. (\<forall>j<k. isData (helloPeer ''5'' (1 + j))) \<and> isEOF (helloPeer ''5'' (1 + k))"
  proof (intro exI [of _ 2] conjI)
    show "(2::nat) < 3" by simp
    show "\<forall>j<2. isData (helloPeer ''5'' (1 + j))" using helloPeer_data by simp
    show "isEOF (helloPeer ''5'' (1 + 2))" by (simp add: helloPeer_def script_def)
  qed
  then have a: "\<exists>w'. streamLoop 3 (helloPeer ''5'') 1 ''d/x'' (fresh [''d/x'' \<mapsto> []]) = Some (Ret (), w')"
    using loop_stops_at_end_of_stream [OF f, of 3 "helloPeer ''5''" 1] by blast
  have "\<forall>j<2. isData (helloPeer ''5'' (1 + j))" using helloPeer_data by simp
  then have b: "streamLoop 2 (helloPeer ''5'') 1 ''d/x'' (fresh [''d/x'' \<mapsto> []]) = None"
    using loop_stops_at_end_of_stream [OF f, of 2 "helloPeer ''5''" 1] by blast
  have p: "parseStartLine (delivered (Read (peer (okEnv (helloPeer sz))) 0 100))
             = Ret (''0644'', sz, ''hello.txt'')" if "sz = ''5'' \<or> sz = ''1''" for sz
    using that by (auto simp: okEnv_def helloPeer_simps parseStartLine_def SP_def)
  have r: "\<exists>st w'. receiveTask 3 (okEnv (helloPeer sz)) ''d'' [] (fresh Map.empty) = Some (st, w')
         \<and> readsOf 1 (wire w') = [Data ''h'', Data ''i'', DataEOF []]"
    if s: "sz = ''5'' \<or> sz = ''1''" for sz
  proof -
    have "\<not> isFailed (peer (okEnv (helloPeer sz)) 0)
       \<and> parseStartLine (delivered (Read (peer (okEnv (helloPeer sz))) 0 100))
            = Ret (''0644'', sz, ''hello.txt'')
       \<and> creatable (okEnv (helloPeer sz)) (destination ''d'' [] ''hello.txt'')
       \<and> (\<forall>j<2. isData (peer (okEnv (helloPeer sz)) (Suc j)))
       \<and> isEOF (peer (okEnv (helloPeer sz)) (Suc 2)) \<and> (2::nat) < 3"
      using p [OF s] d [of sz] e [of sz] by (simp add: okEnv_def helloPeer_simps)
    then obtain st w' where
      "receiveTask 3 (okEnv (helloPeer sz)) ''d'' [] (fresh Map.empty) = Some (st, w')"
      "readsOf 1 (wire w') = readsOf 1 (wire (fresh Map.empty))
          @ map (\<lambda>j. Read (peer (okEnv (helloPeer sz))) j 1) [1..<2 + 2]"
      using loop_stops_at_end_of_stream [OF f, of 3 "helloPeer ''5''" 1] by blast
    then show ?thesis
      by (simp add: fresh_def okEnv_def Read_def helloPeer_simps upt_rec [of 1] upt_rec [of 2]
          upt_rec [of 3] upt_rec [of 4] del: upt_Suc One_nat_def)
  qed
  show ?thesis using a b r [of "''5''"] r [of "''1''"] by simp
qed

lemma script_Nil [simp]: "script [] i = DataEOF []"
  by (simp add: script_def)

lemma script_Cons_0 [simp]: "script (r # rs) 0 = r"
  by (simp add: script_def)

lemma script_Cons_Suc [simp]: "script (r # rs) (Suc i) = script rs i"
  by (simp add: script_def)

lemma script_Cons_numeral [simp]: "script (r # rs) (numeral n) = script rs (pred_numeral n)"
  by (simp add: numeral_eq_Suc)

lemma script_Cons_1 [simp]: "script (r # rs) 1 = script rs 0"
  using script_Cons_Suc [of r rs 0] by simp



section \<open>Acknowledgments\<close>

lemma not_data_cases: "\<not> isData r \<Longrightarrow> isEOF r \<or> isFailed r"
  by (cases r) simp_all

lemma isData_not_isFailed: "isData r \<Longrightarrow> \<not> isFailed r"
  by (cases r) simp_all

lemma isEOF_not_isFailed: "isEOF r \<Longrightarrow> \<not> isFailed r"
  by (cases r) simp_all

lemma receiveTask_wire:
  assumes run: "receiveTask fuel e localFilePath localFileName w = Some (st, w')"
  shows "\<exists>n tail. wire w' = wire w @ [Wr successfulByte, Rd 100 (Read (peer e) 0 100)]
                   @ (if \<not> isFailed (peer e 0)
                         \<and> (\<exists>x. parseStartLine (delivered (Read (peer e) 0 100)) = Ret x)
                      then Wr successfulByte # ackedReads (peer e) 1 n @ tail else [])
          \<and> (tail = [] \<or> (isFailed (peer e (Suc n)) \<and> tail = [Rd 1 (Read (peer e) (Suc n) 1)]
                             \<and> st = Exit))
          \<and> (\<forall>j<n. \<not> isFailed (peer e (Suc j)))"
proof (cases "isFailed (peer e 0)")
  case True
  with run receiveTask_failed [OF True, of fuel localFilePath localFileName w]
  show ?thesis by auto
next
  case nf: False
  show ?thesis
  proof (cases "parseStartLine (delivered (Read (peer e) 0 100))")
    case Exit
    then show ?thesis using parse_not_Exit by blast
  next
    case (Crash p)
    with run receiveTask_crash [OF nf Crash, of fuel localFilePath localFileName w]
    show ?thesis by auto
  next
    case (Ret x)
    obtain filePermission fileSize fileName where x: "x = (filePermission, fileSize, fileName)"
      by (cases x) auto
    let ?d = "destination localFilePath localFileName fileName"
    have p: "parseStartLine (delivered (Read (peer e) 0 100)) = Ret (filePermission, fileSize, fileName)"
      using Ret x by simp
    show ?thesis
    proof (cases "creatable e ?d")
      case False
      from run receiveTask_uncreatable [OF nf p False, of fuel w]
      have "wire w' = wire w @ [Wr successfulByte, Rd 100 (Read (peer e) 0 100), Wr successfulByte]"
        by auto
      then have "wire w' = wire w @ [Wr successfulByte, Rd 100 (Read (peer e) 0 100)]
                   @ (if \<not> isFailed (peer e 0)
                         \<and> (\<exists>x. parseStartLine (delivered (Read (peer e) 0 100)) = Ret x)
                      then Wr successfulByte # ackedReads (peer e) 1 0 @ [] else [])"
        using nf p by simp
      then show ?thesis by blast
    next
      case True
      have "\<not> (\<forall>j<fuel. isData (peer e (Suc j)))"
        using run receiveTask_running [OF nf p True, of fuel w] by auto
      then obtain k where k: "k < fuel" "\<forall>j<k. isData (peer e (Suc j))" "\<not> isData (peer e (Suc k))"
        using first_stop [of fuel "\<lambda>j. isData (peer e (Suc j))"] by blast
      from run receiveTask_stop [OF nf p True k(2) k(3) k(1), of w]
      have st: "st = (if isEOF (peer e (Suc k)) \<and> syncErr e = None then Ret () else Exit)"
        and w': "w' = snd (loopEnd (peer e) 1 k ?d [] (entered e ?d w))" by auto
      show ?thesis
      proof (cases "isEOF (peer e (Suc k))")
        case True
        have "wire w' = wire w @ [Wr successfulByte, Rd 100 (Read (peer e) 0 100)]
                   @ (if \<not> isFailed (peer e 0)
                         \<and> (\<exists>x. parseStartLine (delivered (Read (peer e) 0 100)) = Ret x)
                      then Wr successfulByte # ackedReads (peer e) 1 (Suc k) @ [] else [])"
          using nf p True w' by (simp add: wire_loopEnd_EOF entered_def)
        moreover have "\<forall>j<Suc k. \<not> isFailed (peer e (Suc j))"
          using k(2) True isData_not_isFailed isEOF_not_isFailed less_Suc_eq by metis
        ultimately show ?thesis by blast
      next
        case False
        with k(3) have fl: "isFailed (peer e (Suc k))" using not_data_cases by blast
        have "wire w' = wire w @ [Wr successfulByte, Rd 100 (Read (peer e) 0 100)]
                   @ (if \<not> isFailed (peer e 0)
                         \<and> (\<exists>x. parseStartLine (delivered (Read (peer e) 0 100)) = Ret x)
                      then Wr successfulByte # ackedReads (peer e) 1 k
                             @ [Rd 1 (Read (peer e) (Suc k) 1)] else [])"
          using nf p False w' by (simp add: loopEnd_def entered_def)
        moreover have "st = Exit" using st False by simp
        moreover have "\<forall>j<k. \<not> isFailed (peer e (Suc j))"
          using k(2) isData_not_isFailed by blast
        ultimately show ?thesis using fl by blast
      qed
    qed
  qed
qed

lemma send_wire:
  "wire (snd (CopyLocalFileToRemote e localFilePath filename w))
     = wire w @ (if newSessionErr e = None \<and> stdinPipeErr e = None
                 then [Wr (Sprintln [''C0644'',
                             decimal (length (fst (ReadFile w (localFilePath @ ''/'' @ filename)))),
                             filename]),
                       Wr (fst (ReadFile w (localFilePath @ ''/'' @ filename))),
                       Wr [NUL, NL], Run ''/usr/bin/scp -t ./'', CloseW]
                 else [])"
  by (simp add: CopyLocalFileToRemote_def sendTask_def emit_def Let_def
      split: option.splits prod.splits)

text \<open>
  C4, as amended. In every run of the receive task that ends, what it puts on the wire
  is: one acknowledgment, then the one read of the start line; when that read did not
  fail and the line was parsed, one more acknowledgment; then some number \<open>n\<close> of
  one-byte reads, none of them failed, each followed at once by one acknowledgment; and
  nothing more, except that the run may end in one further one-byte read that failed,
  which terminates the process and is not acknowledged. The send engine puts on the wire
  its three writes (control line, content, terminator), the command and the closing of
  the pipe, and makes no read at all.
\<close>

theorem acknowledgments_on_the_wire:
  "(\<forall>st w'. receiveTask fuel e localFilePath localFileName w = Some (st, w') \<longrightarrow>
      (\<exists>n tail. wire w' = wire w @ [Wr successfulByte, Rd 100 (Read (peer e) 0 100)]
                   @ (if \<not> isFailed (peer e 0)
                         \<and> (\<exists>x. parseStartLine (delivered (Read (peer e) 0 100)) = Ret x)
                      then Wr successfulByte # ackedReads (peer e) 1 n @ tail else [])
          \<and> (tail = [] \<or> (isFailed (peer e (Suc n)) \<and> tail = [Rd 1 (Read (peer e) (Suc n) 1)]
                             \<and> st = Exit))
          \<and> (\<forall>j<n. \<not> isFailed (peer e (Suc j)))))
   \<and> wire (snd (CopyLocalFileToRemote e0 localFilePath0 filename w0))
     = wire w0 @ (if newSessionErr e0 = None \<and> stdinPipeErr e0 = None
                 then [Wr (Sprintln [''C0644'',
                             decimal (length (fst (ReadFile w0 (localFilePath0 @ ''/'' @ filename)))),
                             filename]),
                       Wr (fst (ReadFile w0 (localFilePath0 @ ''/'' @ filename))),
                       Wr [NUL, NL], Run ''/usr/bin/scp -t ./'', CloseW]
                 else [])
   \<and> readsOf c (wire (snd (CopyLocalFileToRemote e0 localFilePath0 filename w0)))
        = readsOf c (wire w0)"
proof -
  have "readsOf c (wire (snd (CopyLocalFileToRemote e0 localFilePath0 filename w0)))
        = readsOf c (wire w0)"
    by (simp add: send_wire readsOf_append)
  then show ?thesis using receiveTask_wire send_wire by blast
qed

theorem acknowledgments_on_the_wire_witness:
  "\<exists>n. wire (snd (the (receiveTask 3 (okEnv (script [Data ''C0644 2 f'', Data ''h'', DataEOF ''i'']))
                          ''d'' [] (fresh Map.empty))))
         = [Wr successfulByte, Rd 100 (Data ''C0644 2 f''), Wr successfulByte]
           @ ackedReads (script [Data ''C0644 2 f'', Data ''h'', DataEOF ''i'']) 1 n"
proof -
  let ?rd = "script [Data ''C0644 2 f'', Data ''h'', DataEOF ''i'']"
  let ?W = "\<lparr>wire = [Wr [NUL], Rd 100 (Data ''C0644 2 f''), Wr [NUL],
                   Rd 1 (Data ''h''), Wr [NUL], Rd 1 (DataEOF ''i''), Wr [NUL]],
            files = [''d/f'' \<mapsto> ''hi'']\<rparr>"
  have run: "receiveTask 3 (okEnv ?rd) ''d'' [] (fresh Map.empty) = Some (Ret (), ?W)"
    by (simp add: receiveTask_def readStartLine_def okEnv_def fresh_def Read_def emit_def
        parseStartLine_def SP_def createNewFile_def writeParitalToFile_def successfulByte_def
        numeral_3_eq_3 Let_def)
  have p: "\<not> isFailed (peer (okEnv ?rd) 0)
       \<and> (\<exists>x. parseStartLine (delivered (Read (peer (okEnv ?rd)) 0 100)) = Ret x)"
    by (simp add: okEnv_def Read_def parseStartLine_def SP_def)
  from acknowledgments_on_the_wire [of 3 "okEnv ?rd" "''d''" "[]" "fresh Map.empty"] run
  obtain n tail where
    "wire ?W = wire (fresh Map.empty) @ [Wr successfulByte, Rd 100 (Read (peer (okEnv ?rd)) 0 100)]
                   @ (if \<not> isFailed (peer (okEnv ?rd) 0)
                         \<and> (\<exists>x. parseStartLine (delivered (Read (peer (okEnv ?rd)) 0 100)) = Ret x)
                      then Wr successfulByte # ackedReads (peer (okEnv ?rd)) 1 n @ tail else [])"
    and "tail = [] \<or> (isFailed (peer (okEnv ?rd) (Suc n))
            \<and> tail = [Rd 1 (Read (peer (okEnv ?rd)) (Suc n) 1)] \<and> Ret () = (Exit :: unit exec))"
    by blast
  then have "wire ?W = [Wr successfulByte, Rd 100 (Data ''C0644 2 f''), Wr successfulByte]
           @ ackedReads ?rd 1 n"
    using p by (simp add: fresh_def okEnv_def Read_def successfulByte_def)
  then show ?thesis using run by auto
qed

text \<open>
  The claim as it was stated, one acknowledgment after each content read the engine
  makes, fails on this run: the second read of the peer fails, the process exits, and
  the wire ends with that read.
\<close>

theorem unacknowledged_read_counterexample:
  "receiveTask 2 (okEnv (script [Data ''C0644 1 f'', Failed ''reset''])) ''d'' [] (fresh Map.empty)
     = Some (Exit, \<lparr>wire = [Wr [NUL], Rd 100 (Data ''C0644 1 f''), Wr [NUL],
                               Rd 1 (Failed ''reset'')],
                      files = [''d/f'' \<mapsto> []]\<rparr>)"
  by (simp add: receiveTask_def readStartLine_def okEnv_def fresh_def Read_def emit_def
      parseStartLine_def SP_def createNewFile_def successfulByte_def numeral_2_eq_2 Let_def)

section \<open>What the caller gets back\<close>

lemma receiveTask_runErr:
  "receiveTask fuel (e\<lparr>runErr := x\<rparr>) localFilePath localFileName w
     = receiveTask fuel e localFilePath localFileName w"
proof -
  have c: "createNewFile (e\<lparr>runErr := x\<rparr>) = createNewFile e"
    by (intro ext) (simp add: createNewFile_def)
  have p: "peer (e\<lparr>runErr := x\<rparr>) = peer e" by simp
  have s: "syncErr (e\<lparr>runErr := x\<rparr>) = syncErr e" by simp
  show ?thesis unfolding receiveTask_def c p s by (rule refl)
qed

lemma receive_result:
  "CopyRemoteFileToLocal fuel e remoteFilePath remoteFilename localFilePath localFileName w =
     (if newSessionErr e \<noteq> None then Some (Exit, w)
      else if stdinPipeErr e \<noteq> None then Some (Ret (stdinPipeErr e), w)
      else if stdoutPipeErr e \<noteq> None then Some (Ret (stdoutPipeErr e), w)
      else (case receiveTask fuel e localFilePath localFileName
                   (emit (Run (''/usr/bin/scp -f '' @ remoteFilePath @ ''/'' @ remoteFilename)) w) of
              None \<Rightarrow> None
            | Some (Ret u, w1) \<Rightarrow> Some (Ret None, emit CloseW w1)
            | Some (Exit, w1) \<Rightarrow> Some (Exit, w1)
            | Some (Crash p, w1) \<Rightarrow> Some (Crash p, w1)))"
  by (auto simp: CopyRemoteFileToLocal_def Let_def split: option.splits)

text \<open>
  C7. \<open>CopyLocalFileToRemote\<close> returns an error exactly when the session is obtained
  and the write pipe is not; \<open>CopyRemoteFileToLocal\<close> returns an error exactly when the
  session is obtained and the write pipe or the read pipe is not. With the pipes obtained
  the send engine returns no error, and whatever the receive engine returns is no error.
  The result of \<open>session.Run\<close>, the remote command's exit status, changes nothing in
  either. A read of the peer that fails with an error other than end-of-stream, be it
  the read of the start line or a read of the loop, is not returned: the process exits.
\<close>

theorem errors_returned_only_for_pipes:
  "(fst (CopyLocalFileToRemote e localFilePath filename w) = Ret (Some err)
      \<longleftrightarrow> newSessionErr e = None \<and> stdinPipeErr e = Some err)
   \<and> (newSessionErr e = None \<and> stdinPipeErr e = None
        \<longrightarrow> fst (CopyLocalFileToRemote e localFilePath filename w) = Ret None)
   \<and> ((\<exists>w'. CopyRemoteFileToLocal fuel e remoteFilePath remoteFilename localFilePath localFileName w
               = Some (Ret (Some err), w'))
      \<longleftrightarrow> newSessionErr e = None
          \<and> (stdinPipeErr e = Some err \<or> stdinPipeErr e = None \<and> stdoutPipeErr e = Some err))
   \<and> (stdinPipeErr e = None \<and> stdoutPipeErr e = None
        \<longrightarrow> (\<forall>v w'. CopyRemoteFileToLocal fuel e remoteFilePath remoteFilename localFilePath
                        localFileName w = Some (Ret v, w') \<longrightarrow> v = None))
   \<and> CopyLocalFileToRemote (e\<lparr>runErr := x\<rparr>) localFilePath filename w
        = CopyLocalFileToRemote e localFilePath filename w
   \<and> CopyRemoteFileToLocal fuel (e\<lparr>runErr := x\<rparr>) remoteFilePath remoteFilename localFilePath
          localFileName w
        = CopyRemoteFileToLocal fuel e remoteFilePath remoteFilename localFilePath localFileName w
   \<and> (newSessionErr e = None \<and> stdinPipeErr e = None \<and> stdoutPipeErr e = None
        \<and> isFailed (peer e 0)
        \<longrightarrow> (\<exists>w'. CopyRemoteFileToLocal fuel e remoteFilePath remoteFilename localFilePath
                      localFileName w = Some (Exit, w')))
   \<and> (\<forall>filePermission fileSize fileName k.
        newSessionErr e = None \<and> stdinPipeErr e = None \<and> stdoutPipeErr e = None
        \<and> \<not> isFailed (peer e 0)
        \<and> parseStartLine (delivered (Read (peer e) 0 100)) = Ret (filePermission, fileSize, fileName)
        \<and> creatable e (destination localFilePath localFileName fileName)
        \<and> (\<forall>j<k. isData (peer e (Suc j))) \<and> isFailed (peer e (Suc k)) \<and> k < fuel
        \<longrightarrow> (\<exists>w'. CopyRemoteFileToLocal fuel e remoteFilePath remoteFilename localFilePath
                      localFileName w = Some (Exit, w')))"
proof -
  let ?w0 = "emit (Run (''/usr/bin/scp -f '' @ remoteFilePath @ ''/'' @ remoteFilename)) w"
  have s1: "fst (CopyLocalFileToRemote e localFilePath filename w) = Ret (Some err)
      \<longleftrightarrow> newSessionErr e = None \<and> stdinPipeErr e = Some err"
    by (auto simp: CopyLocalFileToRemote_def Let_def split: option.splits)
  have s2: "newSessionErr e = None \<and> stdinPipeErr e = None
        \<longrightarrow> fst (CopyLocalFileToRemote e localFilePath filename w) = Ret None"
    by (simp add: CopyLocalFileToRemote_def Let_def)
  have r1: "(\<exists>w'. CopyRemoteFileToLocal fuel e remoteFilePath remoteFilename localFilePath localFileName w
               = Some (Ret (Some err), w'))
      \<longleftrightarrow> newSessionErr e = None
          \<and> (stdinPipeErr e = Some err \<or> stdinPipeErr e = None \<and> stdoutPipeErr e = Some err)"
    by (auto simp: receive_result split: option.splits exec.splits prod.splits)
  have r2: "stdinPipeErr e = None \<and> stdoutPipeErr e = None
        \<longrightarrow> (\<forall>v w'. CopyRemoteFileToLocal fuel e remoteFilePath remoteFilename localFilePath
                        localFileName w = Some (Ret v, w') \<longrightarrow> v = None)"
    by (auto simp: receive_result split: option.splits exec.splits prod.splits if_splits)
  have i1: "CopyLocalFileToRemote (e\<lparr>runErr := x\<rparr>) localFilePath filename w
        = CopyLocalFileToRemote e localFilePath filename w"
    by (simp add: CopyLocalFileToRemote_def split: option.splits)
  have i2: "CopyRemoteFileToLocal fuel (e\<lparr>runErr := x\<rparr>) remoteFilePath remoteFilename localFilePath
          localFileName w
        = CopyRemoteFileToLocal fuel e remoteFilePath remoteFilename localFilePath localFileName w"
    by (simp add: CopyRemoteFileToLocal_def receiveTask_runErr split: option.splits)
  have f1: "newSessionErr e = None \<and> stdinPipeErr e = None \<and> stdoutPipeErr e = None
        \<and> isFailed (peer e 0)
        \<longrightarrow> (\<exists>w'. CopyRemoteFileToLocal fuel e remoteFilePath remoteFilename localFilePath
                      localFileName w = Some (Exit, w'))"
    by (simp add: receive_result receiveTask_failed)
  have f2: "\<exists>w'. CopyRemoteFileToLocal fuel e remoteFilePath remoteFilename localFilePath
                      localFileName w = Some (Exit, w')"
    if ok: "newSessionErr e = None" "stdinPipeErr e = None" "stdoutPipeErr e = None"
      and h: "\<not> isFailed (peer e 0)"
        "parseStartLine (delivered (Read (peer e) 0 100)) = Ret (filePermission, fileSize, fileName)"
        "creatable e (destination localFilePath localFileName fileName)"
        "\<forall>j<k. isData (peer e (Suc j))"
      and fl: "isFailed (peer e (Suc k))" and k: "k < fuel"
    for filePermission fileSize fileName k
  proof -
    from fl have nd: "\<not> isData (peer e (Suc k))" and ne: "\<not> isEOF (peer e (Suc k))"
      using isData_not_isFailed isEOF_not_isFailed by blast+
    from receiveTask_stop [OF h nd k, of ?w0] ne
    show ?thesis using ok by (simp add: receive_result)
  qed
  show ?thesis using s1 s2 r1 r2 i1 i2 f1 f2 by blast
qed


theorem errors_returned_only_for_pipes_witness:
  "fst (CopyLocalFileToRemote ((okEnv (script []))\<lparr>stdinPipeErr := Some ''no pipe''\<rparr>)
          ''d'' ''f'' (fresh Map.empty)) = Ret (Some ''no pipe'')
   \<and> fst (CopyLocalFileToRemote ((okEnv (script []))\<lparr>runErr := Some ''exit status 1''\<rparr>)
          ''d'' ''f'' (fresh Map.empty)) = Ret None
   \<and> (\<exists>w'. CopyRemoteFileToLocal 2 ((okEnv (script []))\<lparr>stdoutPipeErr := Some ''no pipe''\<rparr>)
          ''r'' ''f'' ''d'' [] (fresh Map.empty) = Some (Ret (Some ''no pipe''), w'))
   \<and> (\<exists>w'. CopyRemoteFileToLocal 2 (okEnv (script [Data ''C0644 1 f'', Failed ''reset'']))
          ''r'' ''f'' ''d'' [] (fresh Map.empty) = Some (Exit, w'))
   \<and> fst (the (CopyRemoteFileToLocal 3
          ((okEnv (helloPeer ''5''))\<lparr>runErr := Some ''exit status 1''\<rparr>)
          ''r'' ''f'' ''d'' [] (fresh Map.empty))) = Ret None"
proof -
  let ?rd = "script [Data ''C0644 1 f'', Failed ''reset'']"
  have a: "fst (CopyLocalFileToRemote ((okEnv (script []))\<lparr>stdinPipeErr := Some ''no pipe''\<rparr>)
          ''d'' ''f'' (fresh Map.empty)) = Ret (Some ''no pipe'')"
    using errors_returned_only_for_pipes
      [of "(okEnv (script []))\<lparr>stdinPipeErr := Some ''no pipe''\<rparr>" "''d''" "''f''"
          "fresh Map.empty" "''no pipe''"]
    by (simp add: okEnv_def)
  have b: "fst (CopyLocalFileToRemote ((okEnv (script []))\<lparr>runErr := Some ''exit status 1''\<rparr>)
          ''d'' ''f'' (fresh Map.empty)) = Ret None"
    using errors_returned_only_for_pipes
      [of "(okEnv (script []))\<lparr>runErr := Some ''exit status 1''\<rparr>" "''d''" "''f''"
          "fresh Map.empty"]
    by (simp add: okEnv_def)
  have c: "\<exists>w'. CopyRemoteFileToLocal 2 ((okEnv (script []))\<lparr>stdoutPipeErr := Some ''no pipe''\<rparr>)
          ''r'' ''f'' ''d'' [] (fresh Map.empty) = Some (Ret (Some ''no pipe''), w')"
    using errors_returned_only_for_pipes
      [of "(okEnv (script []))\<lparr>stdoutPipeErr := Some ''no pipe''\<rparr>" "''d''" "''f''"
          "fresh Map.empty" "''no pipe''" 2 "''r''" "''f''" "[]"]
    by (simp add: okEnv_def)
  have h: "newSessionErr (okEnv ?rd) = None \<and> stdinPipeErr (okEnv ?rd) = None
        \<and> stdoutPipeErr (okEnv ?rd) = None \<and> \<not> isFailed (peer (okEnv ?rd) 0)
        \<and> parseStartLine (delivered (Read (peer (okEnv ?rd)) 0 100)) = Ret (''0644'', ''1'', ''f'')
        \<and> creatable (okEnv ?rd) (destination ''d'' [] ''f'')
        \<and> (\<forall>j<0. isData (peer (okEnv ?rd) (Suc j))) \<and> isFailed (peer (okEnv ?rd) (Suc 0))
        \<and> (0::nat) < 2"
    by (simp add: okEnv_def Read_def parseStartLine_def SP_def)
  have d: "\<exists>w'. CopyRemoteFileToLocal 2 (okEnv ?rd) ''r'' ''f'' ''d'' [] (fresh Map.empty)
             = Some (Exit, w')"
    using errors_returned_only_for_pipes
      [of "okEnv ?rd" "''d''" "''f''" "fresh Map.empty" "''x''" 2 "''r''" "''f''" "[]"] h
    by blast
  have r: "fst (the (CopyRemoteFileToLocal 3
          ((okEnv (helloPeer ''5''))\<lparr>runErr := Some ''exit status 1''\<rparr>)
          ''r'' ''f'' ''d'' [] (fresh Map.empty))) = Ret None"
    using errors_returned_only_for_pipes
      [of "okEnv (helloPeer ''5'')" "''d''" "''f''" "fresh Map.empty" "''x''" 3 "''r''" "''f''" "[]"
          "Some ''exit status 1''"]
    by (simp add: CopyRemoteFileToLocal_def receiveTask_def readStartLine_def okEnv_def fresh_def
        helloPeer_def Read_def emit_def parseStartLine_def SP_def createNewFile_def
        writeParitalToFile_def successfulByte_def numeral_3_eq_3 Let_def)
  show ?thesis using a b c d r by blast
qed

section \<open>The start line\<close>

lemma readsOf_100_ackedReads: "readsOf 100 (ackedReads rd i n) = []"
  by (induction n) (simp_all add: ackedReads_snoc readsOf_append)

lemma delivered_Read: "delivered (Read rd j c) = take c (delivered (rd j))"
  by (cases "rd j") simp_all

text \<open>
  C9, as amended. The receive engine makes one read into the buffer of 100 bytes, and no
  other read with that buffer. When that read fails with an error other than
  end-of-stream the process exits; otherwise the bytes of that one read, at most 100 and
  possibly fewer than the peer's whole line, are the start line that is parsed: it is
  the name parsed from them under which the destination is created.
\<close>

theorem start_line_is_the_first_read:
  "fst (readStartLine rd w) = (if isFailed (rd 0) then Exit else Ret (take 100 (delivered (rd 0))))
   \<and> wire (snd (readStartLine rd w)) = wire w @ [Rd 100 (Read rd 0 100)]
   \<and> (\<forall>st w'. receiveTask fuel e localFilePath localFileName w0 = Some (st, w') \<longrightarrow>
         readsOf 100 (wire w') = readsOf 100 (wire w0) @ [Read (peer e) 0 100])
   \<and> (\<forall>filePermission fileSize fileName st w'.
         \<not> isFailed (peer e 0)
         \<and> parseStartLine (take 100 (delivered (peer e 0))) = Ret (filePermission, fileSize, fileName)
         \<and> creatable e (destination localFilePath localFileName fileName)
         \<and> receiveTask fuel e localFilePath localFileName w0 = Some (st, w')
         \<longrightarrow> files w' (destination localFilePath localFileName fileName) \<noteq> None)"
proof -
  have a: "fst (readStartLine rd w)
      = (if isFailed (rd 0) then Exit else Ret (take 100 (delivered (rd 0))))"
    by (simp add: readStartLine_eq delivered_Read)
  have b: "wire (snd (readStartLine rd w)) = wire w @ [Rd 100 (Read rd 0 100)]"
    by (simp add: readStartLine_eq emit_def)
  have c: "readsOf 100 (wire w') = readsOf 100 (wire w0) @ [Read (peer e) 0 100]"
    if run: "receiveTask fuel e localFilePath localFileName w0 = Some (st, w')" for st w'
  proof -
    from receiveTask_wire [OF run] obtain n tail where
      w: "wire w' = wire w0 @ [Wr successfulByte, Rd 100 (Read (peer e) 0 100)]
                   @ (if \<not> isFailed (peer e 0)
                         \<and> (\<exists>x. parseStartLine (delivered (Read (peer e) 0 100)) = Ret x)
                      then Wr successfulByte # ackedReads (peer e) 1 n @ tail else [])"
      and t: "tail = [] \<or> (isFailed (peer e (Suc n)) \<and> tail = [Rd 1 (Read (peer e) (Suc n) 1)]
                             \<and> st = Exit)"
      by blast
    from t have "readsOf 100 tail = []" by auto
    then show ?thesis using w by (simp add: readsOf_append readsOf_100_ackedReads)
  qed
  have d: "files w' (destination localFilePath localFileName fileName) \<noteq> None"
    if nf: "\<not> isFailed (peer e 0)"
      and p: "parseStartLine (take 100 (delivered (peer e 0))) = Ret (filePermission, fileSize, fileName)"
      and cr: "creatable e (destination localFilePath localFileName fileName)"
      and run: "receiveTask fuel e localFilePath localFileName w0 = Some (st, w')"
    for filePermission fileSize fileName st w'
  proof -
    let ?d = "destination localFilePath localFileName fileName"
    from p have p': "parseStartLine (delivered (Read (peer e) 0 100))
        = Ret (filePermission, fileSize, fileName)" by (simp add: delivered_Read)
    have "\<not> (\<forall>j<fuel. isData (peer e (Suc j)))"
      using run receiveTask_running [OF nf p' cr, of fuel w0] by auto
    then obtain k where k: "k < fuel" "\<forall>j<k. isData (peer e (Suc j))" "\<not> isData (peer e (Suc k))"
      using first_stop [of fuel "\<lambda>j. isData (peer e (Suc j))"] by blast
    from run receiveTask_stop [OF nf p' cr k(2) k(3) k(1), of w0]
    have "w' = snd (loopEnd (peer e) 1 k ?d [] (entered e ?d w0))" by auto
    then show ?thesis by (simp add: files_loopEnd)
  qed
  show ?thesis using a b c d by blast
qed

theorem start_line_is_the_first_read_witness:
  "fst (readStartLine (script [Data ''C0644 5 he'', Data ''l'', DataEOF ''l'']) (fresh Map.empty))
     = Ret ''C0644 5 he''
   \<and> files (snd (the (receiveTask 2 (okEnv (script [Data ''C0644 5 he'', Data ''l'', DataEOF ''l'']))
         ''d'' [] (fresh Map.empty)))) ''d/he'' \<noteq> None"
proof -
  let ?rd = "script [Data ''C0644 5 he'', Data ''l'', DataEOF ''l'']"
  let ?W = "\<lparr>wire = [Wr [NUL], Rd 100 (Data ''C0644 5 he''), Wr [NUL],
                   Rd 1 (Data ''l''), Wr [NUL], Rd 1 (DataEOF ''l''), Wr [NUL]],
            files = [''d/he'' \<mapsto> ''ll'']\<rparr>"
  have run: "receiveTask 2 (okEnv ?rd) ''d'' [] (fresh Map.empty) = Some (Ret (), ?W)"
    by (simp add: receiveTask_def readStartLine_def okEnv_def fresh_def Read_def emit_def
        parseStartLine_def SP_def createNewFile_def writeParitalToFile_def successfulByte_def
        numeral_2_eq_2 Let_def)
  have h: "\<not> isFailed (peer (okEnv ?rd) 0)
         \<and> parseStartLine (take 100 (delivered (peer (okEnv ?rd) 0))) = Ret (''0644'', ''5'', ''he'')
         \<and> creatable (okEnv ?rd) (destination ''d'' [] ''he'')"
    by (simp add: okEnv_def parseStartLine_def SP_def)
  from start_line_is_the_first_read [of ?rd "fresh Map.empty" 2 "okEnv ?rd" "''d''" "[]"
      "fresh Map.empty"] h run
  have "fst (readStartLine ?rd (fresh Map.empty)) = Ret ''C0644 5 he''
      \<and> files ?W (destination ''d'' [] ''he'') \<noteq> None"
    by (simp add: okEnv_def)
  then show ?thesis using run by (simp add: destination_def)
qed

text \<open>
  The claim as it was stated, that the engine reads until an error or a full buffer,
  fails for a peer whose line arrives in two pieces: reading until an error or a full
  buffer accumulates the whole line, while the engine parses the first piece alone and
  takes \<open>he\<close> for the file name.
\<close>

theorem start_line_counterexample:
  "fst (readStartLine (script [Data ''C0644 5 he'', Data (''llo.txt'' @ [NL])]) (fresh Map.empty))
     = Ret ''C0644 5 he''
   \<and> readUntilErrorOrFull 3 (script [Data ''C0644 5 he'', Data (''llo.txt'' @ [NL])]) 0 100 []
     = Some (''C0644 5 hello.txt'' @ [NL])
   \<and> parseStartLine ''C0644 5 he'' = Ret (''0644'', ''5'', ''he'')
   \<and> parseStartLine (''C0644 5 hello.txt'' @ [NL]) = Ret (''0644'', ''5'', ''hello.txt'' @ [NL])"
  by (simp add: readStartLine_def Read_def emit_def numeral_3_eq_3 parseStartLine_def SP_def NL_def)

section \<open>The destination file\<close>

text \<open>
  C6. The claim does not hold of the code. A peer sends the control line
  \<open>C0644 5 hello.txt\<close> as the wire format has it, ended by a newline, and then the five
  bytes \<open>hello\<close>. The parse splits at spaces only, so the newline stays in the file
  name: the engine creates \<open>d/hello.txt\<close> with a newline at the end of the name, holding
  the five bytes, and no file \<open>d/hello.txt\<close>.
\<close>

theorem receive_keeps_the_newline:
  "fst (the (receiveTask 6
       (okEnv (script [Data (''C0644 5 hello.txt'' @ [NL]),
                       Data ''h'', Data ''e'', Data ''l'', Data ''l'', Data ''o'']))
       ''d'' [] (fresh Map.empty))) = Ret ()
   \<and> files (snd (the (receiveTask 6
       (okEnv (script [Data (''C0644 5 hello.txt'' @ [NL]),
                       Data ''h'', Data ''e'', Data ''l'', Data ''l'', Data ''o'']))
       ''d'' [] (fresh Map.empty)))) (''d/hello.txt'' @ [NL]) = Some ''hello''
   \<and> files (snd (the (receiveTask 6
       (okEnv (script [Data (''C0644 5 hello.txt'' @ [NL]),
                       Data ''h'', Data ''e'', Data ''l'', Data ''l'', Data ''o'']))
       ''d'' [] (fresh Map.empty)))) ''d/hello.txt'' = None"
  by (simp add: receiveTask_def readStartLine_def okEnv_def fresh_def Read_def emit_def
      parseStartLine_def SP_def NL_def createNewFile_def writeParitalToFile_def successfulByte_def
      eval_nat_numeral Let_def)


text \<open>
  For a start line that ends after the file name, without the newline, the destination
  is \<open>d/hello.txt\<close>; and a local file name, when given, replaces the parsed one.
\<close>

lemma receive_without_newline:
  "files (snd (the (receiveTask 6
       (okEnv (script [Data ''C0644 5 hello.txt'',
                       Data ''h'', Data ''e'', Data ''l'', Data ''l'', Data ''o'']))
       ''d'' [] (fresh Map.empty)))) ''d/hello.txt'' = Some ''hello''"
  by (simp add: receiveTask_def readStartLine_def okEnv_def fresh_def Read_def emit_def
      parseStartLine_def SP_def NL_def createNewFile_def writeParitalToFile_def successfulByte_def
      eval_nat_numeral Let_def)

lemma receive_under_local_name:
  "localFileName \<noteq> [] \<Longrightarrow>
     destination localFilePath localFileName fileName = localFilePath @ ''/'' @ localFileName"
  by (simp add: destination_def)

end
